theory Spec2Isabelle
  imports Main
begin

section \<open>JavaScript values and the object store\<close>

text \<open>
  The classifiers of \<^verbatim>\<open>src/infra/unhandled-rejections.ts\<close> take a value of type
  \<^verbatim>\<open>unknown\<close> and probe it dynamically. A value is a primitive or a reference to an
  object in the store; two references are the same object exactly when their addresses
  are equal, which is what \<^verbatim>\<open>cause !== err\<close> compares. A number is given by the
  string that \<^verbatim>\<open>String\<close> yields for it (\<^verbatim>\<open>"429"\<close>, \<^verbatim>\<open>"0.5"\<close>,
  \<^verbatim>\<open>"4.29e+21"\<close>, \<^verbatim>\<open>"NaN"\<close>): numbers that print alike are strictly equal
  (but for \<^verbatim>\<open>NaN\<close>, which the source never compares with itself), and the
  classifiers do nothing with a number but test whether it is falsy, compare it with
  429 and convert it to a string. Reading a property has no effect and does not throw
  (no getters, no proxies), and every object has a string conversion.
\<close>

type_synonym addr = nat

datatype val =
    VUndefined
  | VNull
  | VBool bool
  | VNum string
  | VStr string
  | VObj addr

text \<open>
  The prototype of an object decides \<^verbatim>\<open>instanceof\<close>: every \<^verbatim>\<open>TypeError\<close> and
  every \<^verbatim>\<open>AggregateError\<close> is an \<^verbatim>\<open>Error\<close>, a plain object is none of them.
\<close>

datatype proto = ObjectProto | ErrorProto | TypeErrorProto | AggregateErrorProto

text \<open>
  The properties the classifiers read. \<open>name\<close> and \<open>message\<close> are \<open>None\<close> when the
  property is not \<^verbatim>\<open>in\<close> the object; the other properties read as
  \<^verbatim>\<open>undefined\<close> when absent. \<open>errors\<close> is the member array of an aggregate error.
  \<open>toStr\<close> is what \<^verbatim>\<open>String(obj)\<close> yields for the object.
\<close>

record obj =
  proto :: proto
  name :: "val option"
  message :: "val option"
  code :: "string option"
  status :: val
  statusCode :: val
  cause :: val
  errors :: "val list option"
  toStr :: string

type_synonym heap = "addr \<Rightarrow> obj"

text \<open>
  \<^verbatim>\<open>!v\<close> is false exactly for the truthy values; the falsy numbers are zero (\<^verbatim>\<open>0\<close>
  and \<^verbatim>\<open>-0\<close> both print as \<^verbatim>\<open>"0"\<close>) and \<^verbatim>\<open>NaN\<close>.
\<close>

fun truthy :: "val \<Rightarrow> bool" where
  "truthy VUndefined = False"
| "truthy VNull = False"
| "truthy (VBool b) = b"
| "truthy (VNum n) = (n \<noteq> ''0'' \<and> n \<noteq> ''NaN'')"
| "truthy (VStr s) = (s \<noteq> [])"
| "truthy (VObj a) = True"

text \<open>\<^verbatim>\<open>typeof v === "object"\<close> for a truthy value: the value is an object reference.\<close>

fun isObject :: "val \<Rightarrow> bool" where
  "isObject (VObj a) = True"
| "isObject v = False"

text \<open>\<^verbatim>\<open>String(v)\<close>.\<close>

fun toString :: "heap \<Rightarrow> val \<Rightarrow> string" where
  "toString h VUndefined = ''undefined''"
| "toString h VNull = ''null''"
| "toString h (VBool b) = (if b then ''true'' else ''false'')"
| "toString h (VNum n) = n"
| "toString h (VStr s) = s"
| "toString h (VObj a) = toStr (h a)"

section \<open>The classifiers\<close>

definition FATAL_ERROR_CODES :: "string set" where
  "FATAL_ERROR_CODES =
     {''ERR_OUT_OF_MEMORY'', ''ERR_SCRIPT_EXECUTION_TIMEOUT'', ''ERR_WORKER_OUT_OF_MEMORY'',
      ''ERR_WORKER_UNCAUGHT_EXCEPTION'', ''ERR_WORKER_INITIALIZATION_FAILED''}"

definition CONFIG_ERROR_CODES :: "string set" where
  "CONFIG_ERROR_CODES = {''INVALID_CONFIG'', ''MISSING_API_KEY'', ''MISSING_CREDENTIALS''}"

definition TRANSIENT_NETWORK_CODES :: "string set" where
  "TRANSIENT_NETWORK_CODES =
     {''ECONNRESET'', ''ECONNREFUSED'', ''ENOTFOUND'', ''ETIMEDOUT'', ''ESOCKETTIMEDOUT'',
      ''ECONNABORTED'', ''EPIPE'', ''EHOSTUNREACH'', ''ENETUNREACH'', ''EAI_AGAIN'',
      ''UND_ERR_CONNECT_TIMEOUT'', ''UND_ERR_DNS_RESOLVE_FAILED'', ''UND_ERR_CONNECT'',
      ''UND_ERR_SOCKET'', ''UND_ERR_HEADERS_TIMEOUT'', ''UND_ERR_BODY_TIMEOUT''}"

text \<open>
  \<^verbatim>\<open>getErrorCause\<close>: \<^verbatim>\<open>undefined\<close> for a falsy or non-object value, the
  \<^verbatim>\<open>cause\<close> property otherwise.
\<close>

definition getErrorCause :: "heap \<Rightarrow> val \<Rightarrow> val" where
  "getErrorCause h err =
     (if \<not> truthy err \<or> \<not> isObject err then VUndefined
      else (case err of VObj a \<Rightarrow> cause (h a) | _ \<Rightarrow> VUndefined))"

text \<open>
  Modelled from the spec: \<^verbatim>\<open>extractErrorCode\<close> is imported from \<^verbatim>\<open>./errors.js\<close>,
  which is not among the sources. The spec speaks of the \<^verbatim>\<open>code\<close> that is present
  on a structured error: the helper yields the \<open>code\<close> property of an object and nothing
  for any other value.
\<close>

definition extractErrorCode :: "heap \<Rightarrow> val \<Rightarrow> string option" where
  "extractErrorCode h err = (case err of VObj a \<Rightarrow> code (h a) | _ \<Rightarrow> None)"

text \<open>
  \<^verbatim>\<open>extractErrorCodeWithCause\<close>: the direct code when it is truthy (present and not
  the empty string), otherwise the code of the cause.
\<close>

definition extractErrorCodeWithCause :: "heap \<Rightarrow> val \<Rightarrow> string option" where
  "extractErrorCodeWithCause h err =
     (case extractErrorCode h err of
        Some direct \<Rightarrow>
          if direct \<noteq> [] then Some direct else extractErrorCode h (getErrorCause h err)
      | None \<Rightarrow> extractErrorCode h (getErrorCause h err))"

text \<open>\<^verbatim>\<open>isAbortError\<close>.\<close>

definition isAbortError :: "heap \<Rightarrow> val \<Rightarrow> bool" where
  "isAbortError h err =
     (if \<not> truthy err \<or> \<not> isObject err then False
      else (case err of
              VObj a \<Rightarrow>
                (let nm = (case name (h a) of Some v \<Rightarrow> toString h v | None \<Rightarrow> [])
                 in if nm = ''AbortError'' then True
                    else (let msg = (case message (h a) of
                                       Some (VStr s) \<Rightarrow> s
                                     | _ \<Rightarrow> [])
                          in if msg = ''This operation was aborted'' then True else False))
            | _ \<Rightarrow> False))"

definition isFatalError :: "heap \<Rightarrow> val \<Rightarrow> bool" where
  "isFatalError h err =
     (case extractErrorCodeWithCause h err of
        None \<Rightarrow> False
      | Some c \<Rightarrow> c \<in> FATAL_ERROR_CODES)"

definition isConfigError :: "heap \<Rightarrow> val \<Rightarrow> bool" where
  "isConfigError h err =
     (case extractErrorCodeWithCause h err of
        None \<Rightarrow> False
      | Some c \<Rightarrow> c \<in> CONFIG_ERROR_CODES)"

text \<open>
  The patterns of \<^verbatim>\<open>RATE_LIMIT_PATTERNS\<close> are tested against the message. A pattern
  with the flag \<^verbatim>\<open>i\<close> ignores the case of the ASCII letters; none of them is anchored,
  so each one searches the message for a literal (\<^verbatim>\<open>[_ ]?\<close> gives three literals).
\<close>

definition toLowerChar :: "char \<Rightarrow> char" where
  "toLowerChar c =
     (case map_of (zip ''ABCDEFGHIJKLMNOPQRSTUVWXYZ'' ''abcdefghijklmnopqrstuvwxyz'') c of
        Some l \<Rightarrow> l
      | None \<Rightarrow> c)"

fun startsWith :: "string \<Rightarrow> string \<Rightarrow> bool" where
  "startsWith s [] = True"
| "startsWith [] (p # ps) = False"
| "startsWith (c # cs) (p # ps) = (c = p \<and> startsWith cs ps)"

fun testLiteral :: "string \<Rightarrow> string \<Rightarrow> bool" where
  "testLiteral [] p = (p = [])"
| "testLiteral (c # cs) p = (startsWith (c # cs) p \<or> testLiteral cs p)"

definition testIgnoreCase :: "string \<Rightarrow> string \<Rightarrow> bool" where
  "testIgnoreCase s p = testLiteral (map toLowerChar s) p"

definition RATE_LIMIT_PATTERNS :: "(string \<Rightarrow> bool) list" where
  "RATE_LIMIT_PATTERNS =
     [\<lambda>m. testIgnoreCase m ''ratelimit'' \<or> testIgnoreCase m ''rate_limit''
            \<or> testIgnoreCase m ''rate limit'',
      \<lambda>m. testIgnoreCase m ''too many requests'',
      \<lambda>m. testLiteral m ''429'',
      \<lambda>m. testIgnoreCase m ''quota'',
      \<lambda>m. testIgnoreCase m ''resourceexhausted'' \<or> testIgnoreCase m ''resource_exhausted''
            \<or> testIgnoreCase m ''resource exhausted'',
      \<lambda>m. testIgnoreCase m ''overloaded'']"

text \<open>\<^verbatim>\<open>err instanceof Error\<close>, \<^verbatim>\<open>TypeError\<close>, \<^verbatim>\<open>AggregateError\<close>.\<close>

definition instanceofError :: "heap \<Rightarrow> val \<Rightarrow> bool" where
  "instanceofError h err = (case err of VObj a \<Rightarrow> proto (h a) \<noteq> ObjectProto | _ \<Rightarrow> False)"

definition instanceofTypeError :: "heap \<Rightarrow> val \<Rightarrow> bool" where
  "instanceofTypeError h err = (case err of VObj a \<Rightarrow> proto (h a) = TypeErrorProto | _ \<Rightarrow> False)"

definition instanceofAggregateError :: "heap \<Rightarrow> val \<Rightarrow> bool" where
  "instanceofAggregateError h err =
     (case err of VObj a \<Rightarrow> proto (h a) = AggregateErrorProto | _ \<Rightarrow> False)"

text \<open>\<^verbatim>\<open>err.status ?? err.statusCode\<close> of an object.\<close>

definition statusOf :: "heap \<Rightarrow> val \<Rightarrow> val" where
  "statusOf h err =
     (case err of
        VObj a \<Rightarrow>
          (if status (h a) = VUndefined \<or> status (h a) = VNull then statusCode (h a)
           else status (h a))
      | _ \<Rightarrow> VUndefined)"

text \<open>
  \<^verbatim>\<open>err instanceof Error ? err.message : String(err)\<close>, as the string the patterns
  are tested against.
\<close>

definition messageOf :: "heap \<Rightarrow> val \<Rightarrow> string" where
  "messageOf h err =
     (if instanceofError h err
      then (case err of
              VObj a \<Rightarrow> toString h (case message (h a) of Some v \<Rightarrow> v | None \<Rightarrow> VUndefined)
            | _ \<Rightarrow> toString h err)
      else toString h err)"

text \<open>
  \<^verbatim>\<open>isRateLimitError\<close>. The function calls itself on the cause; the first argument
  bounds the depth of the calls, and \<open>None\<close> says that the bound was reached: a call
  that returns for no bound never returns (the stack of the runtime overflows).
\<close>

fun isRateLimitError :: "nat \<Rightarrow> heap \<Rightarrow> val \<Rightarrow> bool option" where
  "isRateLimitError 0 h err = None"
| "isRateLimitError (Suc n) h err =
     (if \<not> truthy err then Some False
      else if isObject err \<and> (statusOf h err = VNum ''429'' \<or> statusOf h err = VStr ''429'')
      then Some True
      else if list_ex (\<lambda>pattern. pattern (messageOf h err)) RATE_LIMIT_PATTERNS then Some True
      else (let c = getErrorCause h err
            in if truthy c \<and> c \<noteq> err then isRateLimitError n h c else Some False))"

text \<open>
  \<^verbatim>\<open>Array.prototype.some\<close> over calls that may not return: the first member
  classified true ends the search.
\<close>

fun some :: "('a \<Rightarrow> bool option) \<Rightarrow> 'a list \<Rightarrow> bool option" where
  "some f [] = Some False"
| "some f (x # xs) =
     (case f x of
        None \<Rightarrow> None
      | Some b \<Rightarrow> if b then Some True else some f xs)"

text \<open>\<^verbatim>\<open>isTransientNetworkError\<close>, with the same bound on the depth of its calls.\<close>

fun isTransientNetworkError :: "nat \<Rightarrow> heap \<Rightarrow> val \<Rightarrow> bool option" where
  "isTransientNetworkError 0 h err = None"
| "isTransientNetworkError (Suc n) h err =
     (if \<not> truthy err then Some False
      else if (case extractErrorCodeWithCause h err of
                 Some c \<Rightarrow> c \<noteq> [] \<and> c \<in> TRANSIENT_NETWORK_CODES
               | None \<Rightarrow> False)
      then Some True
      else if instanceofTypeError h err
              \<and> (case err of VObj a \<Rightarrow> message (h a) = Some (VStr ''fetch failed'') | _ \<Rightarrow> False)
      then (let c = getErrorCause h err
            in if truthy c then isTransientNetworkError n h c else Some True)
      else (let c = getErrorCause h err
            in if truthy c \<and> c \<noteq> err then isTransientNetworkError n h c
               else if instanceofAggregateError h err
                       \<and> (case err of
                             VObj a \<Rightarrow> (case errors (h a) of Some es \<Rightarrow> es \<noteq> [] | None \<Rightarrow> False)
                           | _ \<Rightarrow> False)
               then (case err of
                       VObj a \<Rightarrow> some (isTransientNetworkError n h) (the (errors (h a)))
                     | _ \<Rightarrow> Some False)
               else Some False))"

section \<open>The registry of handlers and the top-level policy\<close>

text \<open>
  The registry is the module-level \<^verbatim>\<open>Set\<close> of handler functions. A handler function
  is named by an identifier; the entries of the set are kept in insertion order, and
  \<^verbatim>\<open>delete\<close> leaves an empty entry where the function stood, as the list of entries of
  a \<^verbatim>\<open>Set\<close> does. The state of the process that a handler can change holds the
  registry, the object store and whatever else the handlers keep.
\<close>

type_synonym hid = nat

record 'w runtime =
  handlers :: "hid option list"
  store :: heap
  world :: 'w

text \<open>\<^verbatim>\<open>handlers.add(handler)\<close> and \<^verbatim>\<open>handlers.delete(handler)\<close>.\<close>

definition setAdd :: "hid \<Rightarrow> hid option list \<Rightarrow> hid option list" where
  "setAdd k es = (if Some k \<in> set es then es else es @ [Some k])"


text \<open>
  \<^verbatim>\<open>registerUnhandledRejectionHandler\<close>, and the function it returns, which removes
  the handler again.
\<close>

definition registerUnhandledRejectionHandler :: "hid \<Rightarrow> 'w runtime \<Rightarrow> 'w runtime" where
  "registerUnhandledRejectionHandler k st = st\<lparr>handlers := setAdd k (handlers st)\<rparr>"


text \<open>
  A handler is called with the reason in a state of the process; it returns a boolean or
  throws, and leaves a new state: it may register and unregister handlers, and change
  the store.
\<close>

datatype hres = Returned bool | Threw val

type_synonym 'w handler = "val \<Rightarrow> 'w runtime \<Rightarrow> hres \<times> 'w runtime"

text \<open>
  What the process does: a line on the warning or error stream (the tag and the value
  logged with it; \<^verbatim>\<open>formatUncaughtError\<close> of \<^verbatim>\<open>./errors.js\<close> renders the value),
  or \<^verbatim>\<open>process.exit\<close>.
\<close>

datatype effect = ConsoleWarn string val | ConsoleError string val | ProcessExit nat

text \<open>
  The loop \<^verbatim>\<open>for (const handler of handlers)\<close> of
  \<^verbatim>\<open>isUnhandledRejectionHandled\<close>. The iterator of a \<^verbatim>\<open>Set\<close> is live: it walks
  the entries by position in the set as it is when the next entry is asked for, passes
  over empty entries, and ends when the position is beyond the last entry; so a handler
  removed before its turn is not called and a handler added during the loop is. The loop
  returns the value, the calls made (the handler and its result, in order), the lines
  logged and the state left. The first argument bounds the number of steps: a loop
  whose handlers keep registering handlers does not end, and \<open>None\<close> says that the
  bound was reached.
\<close>

fun iterateHandlers ::
  "nat \<Rightarrow> (hid \<Rightarrow> 'w handler) \<Rightarrow> val \<Rightarrow> nat \<Rightarrow> 'w runtime \<Rightarrow>
   (bool \<times> (hid \<times> hres) list \<times> effect list \<times> 'w runtime) option" where
  "iterateHandlers 0 impl reason i st = None"
| "iterateHandlers (Suc n) impl reason i st =
     (if length (handlers st) \<le> i then Some (False, [], [], st)
      else (case handlers st ! i of
              None \<Rightarrow> iterateHandlers n impl reason (Suc i) st
            | Some k \<Rightarrow>
                (case impl k reason st of
                   (Returned True, st') \<Rightarrow> Some (True, [(k, Returned True)], [], st')
                 | (Returned False, st') \<Rightarrow>
                     (case iterateHandlers n impl reason (Suc i) st' of
                        None \<Rightarrow> None
                      | Some (b, calls, logs, st'') \<Rightarrow>
                          Some (b, (k, Returned False) # calls, logs, st''))
                 | (Threw e, st') \<Rightarrow>
                     (case iterateHandlers n impl reason (Suc i) st' of
                        None \<Rightarrow> None
                      | Some (b, calls, logs, st'') \<Rightarrow>
                          Some (b, (k, Threw e) # calls,
                                ConsoleError ''[openclaw] Unhandled rejection handler failed:'' e
                                  # logs, st'')))))"

definition isUnhandledRejectionHandled ::
  "nat \<Rightarrow> (hid \<Rightarrow> 'w handler) \<Rightarrow> val \<Rightarrow> 'w runtime \<Rightarrow>
   (bool \<times> (hid \<times> hres) list \<times> effect list \<times> 'w runtime) option" where
  "isUnhandledRejectionHandled n impl reason st = iterateHandlers n impl reason 0 st"

text \<open>
  The listener that \<^verbatim>\<open>installUnhandledRejectionHandler\<close> subscribes to
  \<^verbatim>\<open>unhandledRejection\<close>: the effects of one event and the state it leaves, \<open>None\<close>
  when the loop over the handlers or a classifier does not return within the bound.
  The classifiers read the store as the handlers have left it.
\<close>

definition unhandledRejectionListener ::
  "nat \<Rightarrow> (hid \<Rightarrow> 'w handler) \<Rightarrow> val \<Rightarrow> 'w runtime \<Rightarrow> (effect list \<times> 'w runtime) option" where
  "unhandledRejectionListener n impl reason st =
     (case isUnhandledRejectionHandled n impl reason st of
        None \<Rightarrow> None
      | Some (handled, calls, logs, st') \<Rightarrow>
          if handled then Some (logs, st')
          else if isAbortError (store st') reason
          then Some (logs @ [ConsoleWarn ''[openclaw] Suppressed AbortError:'' reason], st')
          else if isFatalError (store st') reason
          then Some (logs @ [ConsoleError ''[openclaw] FATAL unhandled rejection:'' reason,
                             ProcessExit 1], st')
          else if isConfigError (store st') reason
          then Some (logs @ [ConsoleError ''[openclaw] CONFIGURATION ERROR - requires fix:'' reason,
                             ProcessExit 1], st')
          else (case isTransientNetworkError n (store st') reason of
                  None \<Rightarrow> None
                | Some True \<Rightarrow>
                    Some (logs @ [ConsoleWarn ''[openclaw] Non-fatal unhandled rejection (continuing):''
                                    reason], st')
                | Some False \<Rightarrow>
                    (case isRateLimitError n (store st') reason of
                       None \<Rightarrow> None
                     | Some True \<Rightarrow>
                         Some (logs @ [ConsoleWarn
                                 ''[openclaw] Rate limit error (continuing, fallback should handle):''
                                 reason], st')
                     | Some False \<Rightarrow>
                         Some (logs @ [ConsoleError ''[openclaw] Unhandled promise rejection:'' reason,
                                       ProcessExit 1], st'))))"

section \<open>The fallback orchestrator\<close>

text \<open>
  Modelled from the spec: \<^verbatim>\<open>runWithModelFallback\<close> lives in
  \<^verbatim>\<open>src/agents/model-fallback.js\<close>, which is not among the sources (only its test
  \<^verbatim>\<open>model-fallback.ratelimit.test.ts\<close> is). The definitions of this section follow
  section 4.3 of the spec: the targets of the chain are attempted in order; a success
  returns the result with the records of the failed predecessors; a failure is classified
  with \<^verbatim>\<open>isRateLimit\<close> and \<^verbatim>\<open>isTransientNetwork\<close>; a rate-limit or transient
  failure appends a record and moves to the next target; any other failure is raised
  again as it is; a retryable failure of the last target raises the terminal failure
  that carries every record. An empty chain is rejected before any attempt.
\<close>

type_synonym TargetId = string

datatype RetryReason = RetryRateLimit | RetryTransientNetwork | RetryOther

datatype AttemptRecord =
  AttemptRecord (att_target: TargetId) (att_reason: RetryReason) (att_message: string)

datatype ('e, 'r) FallbackOutcome =
    Succeeded 'r "AttemptRecord list"
  | Reraised 'e
  | AllFailed "AttemptRecord list" 'e
  | EmptyChain

text \<open>
  The unit of work is supplied by the caller: called with a target in the state of the
  world \<open>'s\<close>, it fails with an error or succeeds with a result, and leaves a new state.
\<close>

type_synonym ('s, 'e, 'r) work = "TargetId \<Rightarrow> 's \<Rightarrow> ('e + 'r) \<times> 's"

definition classifyRetry :: "('e \<Rightarrow> bool) \<Rightarrow> ('e \<Rightarrow> bool) \<Rightarrow> 'e \<Rightarrow> RetryReason" where
  "classifyRetry isRateLimit isTransientNetwork e =
     (if isRateLimit e then RetryRateLimit
      else if isTransientNetwork e then RetryTransientNetwork
      else RetryOther)"

text \<open>
  The loop over the chain: the outcome, the number of calls of the unit of work made so
  far, and the state they leave.
\<close>

fun fallbackLoop ::
  "('e \<Rightarrow> bool) \<Rightarrow> ('e \<Rightarrow> bool) \<Rightarrow> ('e \<Rightarrow> string) \<Rightarrow> ('s, 'e, 'r) work \<Rightarrow> TargetId list \<Rightarrow>
   AttemptRecord list \<Rightarrow> nat \<Rightarrow> 's \<Rightarrow> ('e, 'r) FallbackOutcome \<times> nat \<times> 's" where
  "fallbackLoop isRateLimit isTransientNetwork messageText doWork [] attempts calls s =
     (EmptyChain, calls, s)"
| "fallbackLoop isRateLimit isTransientNetwork messageText doWork (t # rest) attempts calls s =
     (case doWork t s of
        (Inr r, s') \<Rightarrow> (Succeeded r attempts, Suc calls, s')
      | (Inl e, s') \<Rightarrow>
          (case classifyRetry isRateLimit isTransientNetwork e of
             RetryOther \<Rightarrow> (Reraised e, Suc calls, s')
           | reason \<Rightarrow>
               (let attempts' = attempts @ [AttemptRecord t reason (messageText e)]
                in if rest = [] then (AllFailed attempts' e, Suc calls, s')
                   else fallbackLoop isRateLimit isTransientNetwork messageText doWork rest
                          attempts' (Suc calls) s')))"

definition runWithModelFallback ::
  "('e \<Rightarrow> bool) \<Rightarrow> ('e \<Rightarrow> bool) \<Rightarrow> ('e \<Rightarrow> string) \<Rightarrow> ('s, 'e, 'r) work \<Rightarrow> TargetId list \<Rightarrow> 's \<Rightarrow>
   ('e, 'r) FallbackOutcome \<times> nat \<times> 's" where
  "runWithModelFallback isRateLimit isTransientNetwork messageText doWork chain s =
     fallbackLoop isRateLimit isTransientNetwork messageText doWork chain [] 0 s"

text \<open>
  What the unit of work answers when it is called once for each target of a chain, in
  order: the failures and the success that a claim about a run speaks of.
\<close>

fun answers :: "('s, 'e, 'r) work \<Rightarrow> TargetId list \<Rightarrow> 's \<Rightarrow> ('e + 'r) list" where
  "answers doWork [] s = []"
| "answers doWork (t # rest) s =
     (case doWork t s of (x, s') \<Rightarrow> x # answers doWork rest s')"

section \<open>The classification of the spec\<close>






section \<open>What the spec says of the classifiers\<close>

text \<open>
  What the spec says of \<^verbatim>\<open>isAbort\<close>: the name of the error equals
  \<^verbatim>\<open>"AbortError"\<close> (the source compares \<^verbatim>\<open>String(err.name)\<close>), or its message is
  exactly the string \<^verbatim>\<open>"This operation was aborted"\<close>.
\<close>

definition hasAbortName :: "heap \<Rightarrow> val \<Rightarrow> bool" where
  "hasAbortName h e =
     (\<exists>a v. e = VObj a \<and> name (h a) = Some v \<and> toString h v = ''AbortError'')"

definition hasAbortMessage :: "heap \<Rightarrow> val \<Rightarrow> bool" where
  "hasAbortMessage h e =
     (\<exists>a. e = VObj a \<and> message (h a) = Some (VStr ''This operation was aborted''))"

text \<open>The code of the cause of an object is a fatal code.\<close>

definition causeCodeFatal :: "heap \<Rightarrow> addr \<Rightarrow> bool" where
  "causeCodeFatal h a =
     (\<exists>b c. cause (h a) = VObj b \<and> code (h b) = Some c \<and> c \<in> FATAL_ERROR_CODES)"

text \<open>A status value that says 429: the number or the string.\<close>

definition is429 :: "val \<Rightarrow> bool" where
  "is429 v = (v = VNum ''429'' \<or> v = VStr ''429'')"

text \<open>The lines that \<^verbatim>\<open>isUnhandledRejectionHandled\<close> logs for the handlers that threw.\<close>

fun thrownLog :: "hres list \<Rightarrow> effect list" where
  "thrownLog [] = []"
| "thrownLog (Threw e # rs) =
     ConsoleError ''[openclaw] Unhandled rejection handler failed:'' e # thrownLog rs"
| "thrownLog (Returned b # rs) = thrownLog rs"


fun handledInOrder ::
  "(hid \<Rightarrow> 'w handler) \<Rightarrow> val \<Rightarrow> hid list \<Rightarrow> 'w runtime \<Rightarrow>
   bool \<times> (hid \<times> hres) list \<times> effect list \<times> 'w runtime" where
  "handledInOrder impl reason [] st = (False, [], [], st)"
| "handledInOrder impl reason (k # ks) st =
     (case impl k reason st of
        (Returned True, st') \<Rightarrow> (True, [(k, Returned True)], [], st')
      | (Returned False, st') \<Rightarrow>
          (case handledInOrder impl reason ks st' of
             (b, calls, logs, st'') \<Rightarrow> (b, (k, Returned False) # calls, logs, st''))
      | (Threw e, st') \<Rightarrow>
          (case handledInOrder impl reason ks st' of
             (b, calls, logs, st'') \<Rightarrow>
               (b, (k, Threw e) # calls,
                ConsoleError ''[openclaw] Unhandled rejection handler failed:'' e # logs, st'')))"


section \<open>Stores without cycles\<close>

text \<open>
  A store has no cycle through \<^verbatim>\<open>cause\<close> and the members of aggregate errors when
  its objects can be ranked so that the cause and every member of an object rank below
  the object. A primitive value has rank 0.
\<close>

definition ranked :: "heap \<Rightarrow> (addr \<Rightarrow> nat) \<Rightarrow> bool" where
  "ranked h rank =
     (\<forall>a. (\<forall>b. cause (h a) = VObj b \<longrightarrow> rank b < rank a)
        \<and> (\<forall>ms b. errors (h a) = Some ms \<longrightarrow> VObj b \<in> set ms \<longrightarrow> rank b < rank a))"

definition rankOf :: "(addr \<Rightarrow> nat) \<Rightarrow> val \<Rightarrow> nat" where
  "rankOf rank v = (case v of VObj a \<Rightarrow> rank a | _ \<Rightarrow> 0)"

section \<open>Concrete objects\<close>

text \<open>The object literal \<^verbatim>\<open>{}\<close>, and \<^verbatim>\<open>new C(message)\<close> for an error class.\<close>

definition plainObject :: obj where
  "plainObject =
     \<lparr>proto = ObjectProto, name = None, message = None, code = None, status = VUndefined,
      statusCode = VUndefined, cause = VUndefined, errors = None, toStr = ''[object Object]''\<rparr>"

definition newError :: "proto \<Rightarrow> string \<Rightarrow> string \<Rightarrow> obj" where
  "newError p nm msg =
     \<lparr>proto = p, name = Some (VStr nm), message = Some (VStr msg), code = None,
      status = VUndefined, statusCode = VUndefined, cause = VUndefined, errors = None,
      toStr = nm @ '': '' @ msg\<rparr>"

definition emptyHeap :: heap where
  "emptyHeap = (\<lambda>a. plainObject)"

text \<open>
  \<^verbatim>\<open>Object.assign(new Error("Server Error"), { status: 500, statusCode: 429 })\<close> at
  address 0, \<^verbatim>\<open>Object.assign(new Error("Too Many Requests"), { statusCode: 429 })\<close>
  at address 1.
\<close>

definition statusHeap :: heap where
  "statusHeap = emptyHeap
     (0 := (newError ErrorProto ''Error'' ''Server Error'')
              \<lparr>status := VNum ''500'', statusCode := VNum ''429''\<rparr>,
      1 := (newError ErrorProto ''Error'' ''Too Many Requests'')\<lparr>statusCode := VNum ''429''\<rparr>)"

text \<open>
  At address 0 \<^verbatim>\<open>e = new TypeError("fetch failed"); e.cause = e\<close>. At addresses 1
  and 2 two errors that are each other's cause:
  \<^verbatim>\<open>a = new Error("a"); b = new Error("b", { cause: a }); a.cause = b\<close>.
\<close>

definition cyclicHeap :: heap where
  "cyclicHeap = emptyHeap
     (0 := (newError TypeErrorProto ''TypeError'' ''fetch failed'')\<lparr>cause := VObj 0\<rparr>,
      1 := (newError ErrorProto ''Error'' ''a'')\<lparr>cause := VObj 2\<rparr>,
      2 := (newError ErrorProto ''Error'' ''b'')\<lparr>cause := VObj 1\<rparr>)"

text \<open>
  At address 0 \<^verbatim>\<open>new AggregateError([timeout], "Multiple errors", { cause: plain })\<close>
  with \<^verbatim>\<open>timeout = Object.assign(new Error("timeout"), { code: "ETIMEDOUT" })\<close> at
  address 1 and \<^verbatim>\<open>plain = new Error("regular error")\<close> at address 2. At address 3
  \<^verbatim>\<open>Object.assign(new AggregateError([plain], "Multiple errors"), { code: "ECONNRESET" })\<close>,
  at address 4 \<^verbatim>\<open>new AggregateError([plain, timeout], "Multiple errors")\<close>.
\<close>

definition aggregateHeap :: heap where
  "aggregateHeap = emptyHeap
     (0 := (newError AggregateErrorProto ''AggregateError'' ''Multiple errors'')
              \<lparr>cause := VObj 2, errors := Some [VObj 1]\<rparr>,
      1 := (newError ErrorProto ''Error'' ''timeout'')\<lparr>code := Some ''ETIMEDOUT''\<rparr>,
      2 := newError ErrorProto ''Error'' ''regular error'',
      3 := (newError AggregateErrorProto ''AggregateError'' ''Multiple errors'')
              \<lparr>code := Some ''ECONNRESET'', errors := Some [VObj 2]\<rparr>,
      4 := (newError AggregateErrorProto ''AggregateError'' ''Multiple errors'')
              \<lparr>errors := Some [VObj 2, VObj 1]\<rparr>)"

text \<open>
  At address 0 \<^verbatim>\<open>Object.assign(new Error("outer"), { code: "EFOO", cause: oom })\<close> with
  \<^verbatim>\<open>oom = Object.assign(new Error("inner"), { code: "ERR_OUT_OF_MEMORY" })\<close> at
  address 1; at address 2 \<^verbatim>\<open>new Error("wrapper", { cause: oom })\<close>.
\<close>

definition fatalHeap :: heap where
  "fatalHeap = emptyHeap
     (0 := (newError ErrorProto ''Error'' ''outer'')\<lparr>code := Some ''EFOO'', cause := VObj 1\<rparr>,
      1 := (newError ErrorProto ''Error'' ''inner'')\<lparr>code := Some ''ERR_OUT_OF_MEMORY''\<rparr>,
      2 := (newError ErrorProto ''Error'' ''wrapper'')\<lparr>cause := VObj 1\<rparr>)"

text \<open>
  At address 0 \<^verbatim>\<open>new Error("Operation aborted")\<close>; at address 1 an error named
  \<^verbatim>\<open>AbortError\<close> that also carries a fatal code:
  \<^verbatim>\<open>Object.assign(new Error("aborted"), { name: "AbortError", code: "ERR_OUT_OF_MEMORY" })\<close>.
\<close>

definition abortHeap :: heap where
  "abortHeap = emptyHeap
     (0 := newError ErrorProto ''Error'' ''Operation aborted'',
      1 := (newError ErrorProto ''AbortError'' ''aborted'')\<lparr>code := Some ''ERR_OUT_OF_MEMORY''\<rparr>)"






text \<open>
  A unit of work in the manner of the test's mock: the state counts the calls made; the
  first two calls fail with the error at address 1 of \<open>statusHeap\<close>, every later call
  succeeds with \<^verbatim>\<open>"ok"\<close>. And one whose every call fails with the plain error at
  address 2 of \<open>aggregateHeap\<close>.
\<close>

definition failTwice :: "(nat, val, string) work" where
  "failTwice t k = (if k < 2 then Inl (VObj 1) else Inr ''ok'', Suc k)"

definition failPlain :: "(nat, val, string) work" where
  "failPlain t k = (Inl (VObj 2), Suc k)"

definition testChain :: "TargetId list" where
  "testChain = [''anthropic/claude-opus-4-5'', ''openrouter/anthropic/claude-sonnet-4'',
                ''lucablaq-studio-ollama/qwen3:32b'']"

section \<open>Abort errors\<close>

lemmas heap_defs = emptyHeap_def plainObject_def newError_def

text \<open>
  Claim C10. For every input that is not an object (\<^verbatim>\<open>null\<close>, \<^verbatim>\<open>undefined\<close>, a
  boolean, a number, any string, also the string \<^verbatim>\<open>"This operation was aborted"\<close>),
  \<^verbatim>\<open>isAbortError\<close> returns false: the name and the message are looked at in objects
  only.
\<close>

theorem isAbortError_non_object:
  "\<not> isObject v \<Longrightarrow> \<not> isAbortError h v"
  by (simp add: isAbortError_def)

text \<open>
  The theorem of C10 at the string \<^verbatim>\<open>"This operation was aborted"\<close>, which is not an
  abort error.
\<close>

theorem isAbortError_non_object_witness:
  "\<not> isObject (VStr ''This operation was aborted'')
   \<and> \<not> isAbortError emptyHeap (VStr ''This operation was aborted'')"
  using isAbortError_non_object [of "VStr ''This operation was aborted''" emptyHeap] by simp

text \<open>
  Claim C5. \<^verbatim>\<open>isAbortError(e)\<close> is true if and only if the name of \<open>e\<close> equals
  \<^verbatim>\<open>"AbortError"\<close> or the message of \<open>e\<close> is exactly the string
  \<^verbatim>\<open>"This operation was aborted"\<close>; an error of another name whose message is
  \<^verbatim>\<open>"aborted"\<close>, \<^verbatim>\<open>"Operation aborted"\<close> or \<^verbatim>\<open>"Request was aborted"\<close> is not
  an abort error.
\<close>

theorem isAbortError_iff:
  "(isAbortError h e \<longleftrightarrow> hasAbortName h e \<or> hasAbortMessage h e)
   \<and> (\<forall>a m. e = VObj a \<and> \<not> hasAbortName h e \<and> message (h a) = Some (VStr m)
          \<and> m \<in> {''aborted'', ''Operation aborted'', ''Request was aborted''}
        \<longrightarrow> \<not> isAbortError h e)"
proof (cases e)
  case (VObj a)
  have main: "isAbortError h (VObj a) \<longleftrightarrow> hasAbortName h (VObj a) \<or> hasAbortMessage h (VObj a)"
    by (auto simp: isAbortError_def hasAbortName_def hasAbortMessage_def Let_def
             split: option.splits val.splits)
  have "\<not> hasAbortMessage h (VObj a)"
    if "message (h a) = Some (VStr m)"
      "m \<in> {''aborted'', ''Operation aborted'', ''Request was aborted''}" for m
    using that by (auto simp: hasAbortMessage_def)
  with main VObj show ?thesis by blast
qed (simp_all add: isAbortError_def hasAbortName_def hasAbortMessage_def)

text \<open>
  The theorem of C5 at \<^verbatim>\<open>new Error("Operation aborted")\<close>, which is no abort error,
  and at an error named \<^verbatim>\<open>AbortError\<close>, which is one.
\<close>

theorem isAbortError_iff_witness:
  "\<not> isAbortError abortHeap (VObj 0) \<and> isAbortError abortHeap (VObj 1)
   \<and> hasAbortName abortHeap (VObj 1) \<and> \<not> hasAbortName abortHeap (VObj 0)
   \<and> message (abortHeap 0) = Some (VStr ''Operation aborted'')"
proof -
  have n0: "\<not> hasAbortName abortHeap (VObj 0)"
    by (simp add: hasAbortName_def abortHeap_def heap_defs)
  have n1: "hasAbortName abortHeap (VObj 1)"
    by (simp add: hasAbortName_def abortHeap_def heap_defs)
  have m0: "message (abortHeap 0) = Some (VStr ''Operation aborted'')"
    by (simp add: abortHeap_def heap_defs)
  from isAbortError_iff [of abortHeap "VObj 0"] n0 m0
  have "\<not> isAbortError abortHeap (VObj 0)" by blast
  moreover from isAbortError_iff [of abortHeap "VObj 1"] n1
  have "isAbortError abortHeap (VObj 1)" by blast
  ultimately show ?thesis using n0 n1 m0 by simp
qed

section \<open>Fatal errors\<close>

text \<open>
  Claim C6, as stated, fails: the claim says that \<^verbatim>\<open>isFatalError(e)\<close> is true when
  \<open>e\<close> carries a code that is not fatal and \<^verbatim>\<open>e.cause\<close> carries a fatal code. The
  error at address 0 of \<open>fatalHeap\<close> carries \<^verbatim>\<open>"EFOO"\<close>, its cause carries
  \<^verbatim>\<open>"ERR_OUT_OF_MEMORY"\<close>, and \<^verbatim>\<open>isFatalError\<close> is false:
  \<^verbatim>\<open>extractErrorCodeWithCause\<close> returns the direct code when there is one and never
  looks at the cause then.
\<close>

theorem isFatalError_cause_shadowed:
  "code (fatalHeap 0) = Some ''EFOO'' \<and> ''EFOO'' \<notin> FATAL_ERROR_CODES
   \<and> cause (fatalHeap 0) = VObj 1 \<and> code (fatalHeap 1) = Some ''ERR_OUT_OF_MEMORY''
   \<and> ''ERR_OUT_OF_MEMORY'' \<in> FATAL_ERROR_CODES
   \<and> \<not> isFatalError fatalHeap (VObj 0)"
  by (simp add: fatalHeap_def heap_defs FATAL_ERROR_CODES_def isFatalError_def
        extractErrorCodeWithCause_def extractErrorCode_def)

text \<open>
  Claim C6, amended. \<^verbatim>\<open>isFatalError(e)\<close> is true if and only if the first code
  present is a fatal code: the code of \<open>e\<close> itself when \<open>e\<close> has a non-empty one,
  and only otherwise the code of \<^verbatim>\<open>e.cause\<close> (one level deep: no cause of the cause
  is read). A value that is not an object is never fatal.
\<close>

theorem isFatalError_first_code:
  "(isFatalError h (VObj a) \<longleftrightarrow>
      (case code (h a) of
         Some c \<Rightarrow> if c \<noteq> [] then c \<in> FATAL_ERROR_CODES else causeCodeFatal h a
       | None \<Rightarrow> causeCodeFatal h a))
   \<and> (\<not> isObject e \<longrightarrow> \<not> isFatalError h e)"
proof -
  have emp: "[] \<notin> FATAL_ERROR_CODES" by (simp add: FATAL_ERROR_CODES_def)
  have cc: "(case extractErrorCode h (getErrorCause h (VObj a)) of
               None \<Rightarrow> False | Some c \<Rightarrow> c \<in> FATAL_ERROR_CODES) = causeCodeFatal h a"
    by (auto simp: extractErrorCode_def getErrorCause_def causeCodeFatal_def
             split: val.splits option.splits)
  have "isFatalError h (VObj a) \<longleftrightarrow>
      (case code (h a) of
         Some c \<Rightarrow> if c \<noteq> [] then c \<in> FATAL_ERROR_CODES else causeCodeFatal h a
       | None \<Rightarrow> causeCodeFatal h a)"
    using cc by (simp add: isFatalError_def extractErrorCodeWithCause_def
          extractErrorCode_def[of h "VObj a"] split: option.splits)
  moreover have "\<not> isObject e \<longrightarrow> \<not> isFatalError h e"
    by (cases e) (simp_all add: isFatalError_def extractErrorCodeWithCause_def
          extractErrorCode_def getErrorCause_def)
  ultimately show ?thesis by blast
qed

text \<open>
  The amended theorem of C6 at a wrapper whose cause carries the fatal code, at the
  error that carries it, at the error whose own code shadows it, and at a string.
\<close>

theorem isFatalError_first_code_witness:
  "isFatalError fatalHeap (VObj 2) \<and> isFatalError fatalHeap (VObj 1)
   \<and> \<not> isFatalError fatalHeap (VObj 0) \<and> \<not> isFatalError fatalHeap (VStr ''ERR_OUT_OF_MEMORY'')"
proof -
  have c: "causeCodeFatal fatalHeap 2"
    by (simp add: causeCodeFatal_def fatalHeap_def heap_defs FATAL_ERROR_CODES_def)
  have "isFatalError fatalHeap (VObj 2)"
    using isFatalError_first_code [of fatalHeap 2 VNull] c
    by (simp add: fatalHeap_def heap_defs)
  moreover have "isFatalError fatalHeap (VObj 1)"
    using isFatalError_first_code [of fatalHeap 1 VNull]
    by (simp add: fatalHeap_def heap_defs FATAL_ERROR_CODES_def)
  moreover have "\<not> isFatalError fatalHeap (VObj 0)"
    using isFatalError_first_code [of fatalHeap 0 VNull]
    by (simp add: fatalHeap_def heap_defs FATAL_ERROR_CODES_def)
  moreover have "\<not> isFatalError fatalHeap (VStr ''ERR_OUT_OF_MEMORY'')"
    using isFatalError_first_code [of fatalHeap 0 "VStr ''ERR_OUT_OF_MEMORY''"] by simp
  ultimately show ?thesis by simp
qed

section \<open>The bound on the depth of the calls\<close>

lemmas classifier_defs = statusOf_def messageOf_def instanceofError_def instanceofTypeError_def
  instanceofAggregateError_def getErrorCause_def extractErrorCodeWithCause_def
  extractErrorCode_def RATE_LIMIT_PATTERNS_def testIgnoreCase_def toLowerChar_def
  TRANSIENT_NETWORK_CODES_def

text \<open>
  A search over members that all return says whether a member is classified true; and a
  search that returns keeps its value when every member keeps its own.
\<close>

lemma some_all_return:
  "\<forall>x\<in>set xs. f x \<noteq> None \<Longrightarrow> some f xs = Some (\<exists>x\<in>set xs. f x = Some True)"
  by (induction xs) (auto split: option.splits)

lemma some_mono:
  "some f xs = Some b \<Longrightarrow> (\<And>x c. x \<in> set xs \<Longrightarrow> f x = Some c \<Longrightarrow> g x = Some c)
   \<Longrightarrow> some g xs = Some b"
  by (induction xs) (auto split: option.splits if_splits)

text \<open>
  A call that returns within a bound returns the same value within every larger bound:
  a value \<open>Some b\<close> is the value that the source function returns.
\<close>

lemma isRateLimitError_Suc:
  "isRateLimitError n h err = Some b \<Longrightarrow> isRateLimitError (Suc n) h err = Some b"
proof (induction n arbitrary: err)
  case 0
  then show ?case by simp
next
  case (Suc n)
  from Suc.prems show ?case
    apply (subst isRateLimitError.simps(2))
    apply (subst (asm) isRateLimitError.simps(2))
    apply (auto simp del: isRateLimitError.simps simp: Let_def split: if_splits intro: Suc.IH)
    done
qed

lemma isRateLimitError_mono:
  "isRateLimitError n h err = Some b \<Longrightarrow> n \<le> m \<Longrightarrow> isRateLimitError m h err = Some b"
proof (induction m)
  case 0
  then show ?case by simp
next
  case (Suc m)
  show ?case
  proof (cases "n = Suc m")
    case True
    with Suc.prems show ?thesis by blast
  next
    case False
    with Suc.prems have "n \<le> m" by arith
    with Suc have "isRateLimitError m h err = Some b" by blast
    then show ?thesis by (rule isRateLimitError_Suc)
  qed
qed

lemma isTransientNetworkError_Suc:
  "isTransientNetworkError n h err = Some b \<Longrightarrow> isTransientNetworkError (Suc n) h err = Some b"
proof (induction n arbitrary: err b)
  case 0
  then show ?case by simp
next
  case (Suc n)
  have step: "some (isTransientNetworkError (Suc n) h) xs = Some c"
    if "some (isTransientNetworkError n h) xs = Some c" for xs c
    using that Suc.IH by (rule some_mono)
  from Suc.prems show ?case
    apply (subst isTransientNetworkError.simps(2))
    apply (subst (asm) isTransientNetworkError.simps(2))
    apply (auto simp del: isTransientNetworkError.simps simp: Let_def
                split: if_splits val.splits intro: Suc.IH step)
    done
qed

lemma isTransientNetworkError_mono:
  "isTransientNetworkError n h err = Some b \<Longrightarrow> n \<le> m
   \<Longrightarrow> isTransientNetworkError m h err = Some b"
proof (induction m)
  case 0
  then show ?case by simp
next
  case (Suc m)
  show ?case
  proof (cases "n = Suc m")
    case True
    with Suc.prems show ?thesis by blast
  next
    case False
    with Suc.prems have "n \<le> m" by arith
    with Suc have "isTransientNetworkError m h err = Some b" by blast
    then show ?thesis by (rule isTransientNetworkError_Suc)
  qed
qed

section \<open>Rate-limit errors\<close>

text \<open>
  Claim C2, as stated, fails: the claim says that an error whose \<^verbatim>\<open>status\<close> or
  \<^verbatim>\<open>statusCode\<close> is 429 is a rate-limit error whatever the other of the two
  properties holds. The error at address 0 of \<open>statusHeap\<close> has the
  \<^verbatim>\<open>statusCode\<close> 429 and the \<^verbatim>\<open>status\<close> 500, its message is
  \<^verbatim>\<open>"Server Error"\<close>, and \<^verbatim>\<open>isRateLimitError\<close> returns false: the source reads
  \<^verbatim>\<open>status ?? statusCode\<close>, so \<^verbatim>\<open>statusCode\<close> counts only when
  \<^verbatim>\<open>status\<close> is \<^verbatim>\<open>undefined\<close> or \<^verbatim>\<open>null\<close>.
\<close>

theorem isRateLimitError_status_shadowed:
  "statusCode (statusHeap 0) = VNum ''429'' \<and> status (statusHeap 0) = VNum ''500''
   \<and> isRateLimitError 1 statusHeap (VObj 0) = Some False"
  by (simp add: statusHeap_def heap_defs classifier_defs)

text \<open>
  Claim C2, amended. For every error object whose \<^verbatim>\<open>status\<close> is 429 (the number or
  the string \<^verbatim>\<open>"429"\<close>), or whose \<^verbatim>\<open>status\<close> is \<^verbatim>\<open>undefined\<close> or
  \<^verbatim>\<open>null\<close> and whose \<^verbatim>\<open>statusCode\<close> is 429, \<^verbatim>\<open>isRateLimitError\<close> returns
  true, whatever the message is; the call returns without a call on the cause.
\<close>

theorem isRateLimitError_status_429:
  "is429 (status (h a))
   \<or> ((status (h a) = VUndefined \<or> status (h a) = VNull) \<and> is429 (statusCode (h a)))
   \<Longrightarrow> isRateLimitError (Suc n) h (VObj a) = Some True"
  by (auto simp: is429_def statusOf_def)

text \<open>
  The amended theorem of C2 at
  \<^verbatim>\<open>Object.assign(new Error("Too Many Requests"), { statusCode: 429 })\<close>.
\<close>

theorem isRateLimitError_status_429_witness:
  "is429 (statusCode (statusHeap 1)) \<and> status (statusHeap 1) = VUndefined
   \<and> isRateLimitError 1 statusHeap (VObj 1) = Some True"
proof -
  have s: "status (statusHeap 1) = VUndefined" by (simp add: statusHeap_def heap_defs)
  have c: "is429 (statusCode (statusHeap 1))" by (simp add: statusHeap_def heap_defs is429_def)
  from isRateLimitError_status_429 [of statusHeap 1 0] s c
  show ?thesis by simp
qed

section \<open>Cyclic cause chains\<close>

lemma cyclicHeap_fetch_failed:
  "isTransientNetworkError n cyclicHeap (VObj 0) = None"
  by (induction n) (simp_all add: cyclicHeap_def heap_defs classifier_defs)

lemma cyclicHeap_rate_limit:
  "isRateLimitError n cyclicHeap (VObj (Suc 0)) = None \<and> isRateLimitError n cyclicHeap (VObj 2) = None"
  by (induction n) (simp_all add: cyclicHeap_def heap_defs classifier_defs)

lemma cyclicHeap_transient:
  "isTransientNetworkError n cyclicHeap (VObj (Suc 0)) = None
   \<and> isTransientNetworkError n cyclicHeap (VObj 2) = None"
  by (induction n) (simp_all add: cyclicHeap_def heap_defs classifier_defs)

text \<open>
  Claim C3 says that \<^verbatim>\<open>isTransientNetworkError\<close> and \<^verbatim>\<open>isRateLimitError\<close>
  terminate and never throw on any input, also when the cause chain is a cycle of any
  length. The source does not do that. On \<^verbatim>\<open>new TypeError("fetch failed")\<close> whose
  cause is itself, \<^verbatim>\<open>isTransientNetworkError\<close> calls itself on the cause without the
  check \<^verbatim>\<open>cause !== err\<close> of its other branch; on two errors that are each other's
  cause, both functions call themselves for ever, since \<^verbatim>\<open>cause !== err\<close> only
  excludes a cycle of length one. No bound on the depth of the calls is enough: the
  runtime ends the call with a stack overflow.
\<close>

theorem cyclic_cause_never_returns:
  "isTransientNetworkError n cyclicHeap (VObj 0) = None
   \<and> isRateLimitError n cyclicHeap (VObj 1) = None
   \<and> isTransientNetworkError n cyclicHeap (VObj 1) = None"
  using cyclicHeap_fetch_failed cyclicHeap_rate_limit cyclicHeap_transient by simp

section \<open>Aggregate errors\<close>

text \<open>
  Claim C4, as stated, fails in both directions. The aggregate error at address 0 of
  \<open>aggregateHeap\<close> has a transient member (the timeout at address 1) and a cause that
  is not transient: \<^verbatim>\<open>isTransientNetworkError\<close> returns what it returns for the cause,
  false, and never reads the members. The aggregate error at address 3 carries the code
  \<^verbatim>\<open>"ECONNRESET"\<close> itself and has no transient member: the function returns true.
\<close>

theorem aggregate_not_iff_members:
  "proto (aggregateHeap 0) = AggregateErrorProto \<and> errors (aggregateHeap 0) = Some [VObj 1]
   \<and> isTransientNetworkError 3 aggregateHeap (VObj 1) = Some True
   \<and> isTransientNetworkError 3 aggregateHeap (VObj 0) = Some False
   \<and> proto (aggregateHeap 3) = AggregateErrorProto \<and> errors (aggregateHeap 3) = Some [VObj 2]
   \<and> isTransientNetworkError 3 aggregateHeap (VObj 2) = Some False
   \<and> isTransientNetworkError 3 aggregateHeap (VObj 3) = Some True"
  by (simp add: aggregateHeap_def heap_defs classifier_defs numeral_3_eq_3)

text \<open>
  Claim C4, amended. For every aggregate error that carries no transient network code
  (neither its own nor the code of its cause) and has no cause other than itself (the
  cause is falsy or is the error itself), when the classification of every member
  returns, \<^verbatim>\<open>isTransientNetworkError\<close> returns true if and only if at least one member
  is classified as transient.
\<close>

theorem aggregate_iff_members:
  assumes "proto (h a) = AggregateErrorProto"
    and "errors (h a) = Some members"
    and "\<not> (case extractErrorCodeWithCause h (VObj a) of
              Some c \<Rightarrow> c \<in> TRANSIENT_NETWORK_CODES | None \<Rightarrow> False)"
    and "\<not> truthy (cause (h a)) \<or> cause (h a) = VObj a"
    and "\<forall>m\<in>set members. isTransientNetworkError n h m \<noteq> None"
  shows "isTransientNetworkError (Suc n) h (VObj a)
         = Some (\<exists>m\<in>set members. isTransientNetworkError n h m = Some True)"
proof -
  have nocode: "\<not> (case extractErrorCodeWithCause h (VObj a) of
              Some c \<Rightarrow> c \<noteq> [] \<and> c \<in> TRANSIENT_NETWORK_CODES | None \<Rightarrow> False)"
    using assms(3) by (simp split: option.splits)
  have notype: "\<not> instanceofTypeError h (VObj a)"
    using assms(1) by (simp add: instanceofTypeError_def)
  have agg: "instanceofAggregateError h (VObj a)"
    using assms(1) by (simp add: instanceofAggregateError_def)
  have nocause: "\<not> (truthy (getErrorCause h (VObj a)) \<and> getErrorCause h (VObj a) \<noteq> VObj a)"
    using assms(4) by (auto simp: getErrorCause_def)
  have unfold: "isTransientNetworkError (Suc n) h (VObj a)
                = (if members \<noteq> [] then some (isTransientNetworkError n h) members
                   else Some False)"
    using nocode notype nocause agg assms(2) by (auto simp: Let_def)
  have "some (isTransientNetworkError n h) members
          = Some (\<exists>m\<in>set members. isTransientNetworkError n h m = Some True)"
    using assms(5) by (rule some_all_return)
  with unfold show ?thesis
    by (cases "members = []") simp_all
qed

text \<open>
  The amended theorem of C4 at \<^verbatim>\<open>new AggregateError([plain, timeout], "Multiple errors")\<close>.
\<close>

theorem aggregate_iff_members_witness:
  "proto (aggregateHeap 4) = AggregateErrorProto
   \<and> errors (aggregateHeap 4) = Some [VObj 2, VObj 1]
   \<and> isTransientNetworkError 2 aggregateHeap (VObj 2) = Some False
   \<and> isTransientNetworkError 2 aggregateHeap (VObj 1) = Some True
   \<and> isTransientNetworkError 3 aggregateHeap (VObj 4) = Some True"
proof -
  have p: "proto (aggregateHeap 4) = AggregateErrorProto"
    and e: "errors (aggregateHeap 4) = Some [VObj 2, VObj 1]"
    and c: "\<not> (case extractErrorCodeWithCause aggregateHeap (VObj 4) of
              Some c \<Rightarrow> c \<in> TRANSIENT_NETWORK_CODES | None \<Rightarrow> False)"
    and k: "\<not> truthy (cause (aggregateHeap 4)) \<or> cause (aggregateHeap 4) = VObj 4"
    by (simp_all add: aggregateHeap_def heap_defs classifier_defs)
  have m2: "isTransientNetworkError 2 aggregateHeap (VObj 2) = Some False"
    and m1: "isTransientNetworkError 2 aggregateHeap (VObj 1) = Some True"
    by (simp_all add: aggregateHeap_def heap_defs classifier_defs numeral_2_eq_2)
  have r: "\<forall>m\<in>set [VObj 2, VObj 1]. isTransientNetworkError 2 aggregateHeap m \<noteq> None"
    using m1 m2 by auto
  from aggregate_iff_members [OF p e c k r] m1 m2 p e
  show ?thesis by (simp add: numeral_3_eq_3 numeral_2_eq_2)
qed

section \<open>The registry of handlers\<close>






text \<open>
  What the iteration in insertion order returns: the handlers called are the first ones
  registered, in order; no call but the last returned true; the value is true exactly
  when the last call returned true, and when it is false every registered handler was
  called.
\<close>

lemma handledInOrder_calls:
  "handledInOrder impl reason ks st = (b, calls, logs, st') \<Longrightarrow>
   map fst calls = take (length calls) ks
   \<and> logs = thrownLog (map snd calls)
   \<and> (\<forall>c\<in>set (butlast calls). snd c \<noteq> Returned True)
   \<and> (b \<longleftrightarrow> calls \<noteq> [] \<and> snd (last calls) = Returned True)
   \<and> (\<not> b \<longrightarrow> map fst calls = ks)"
proof (induction ks arbitrary: st b calls logs st')
  case Nil
  then show ?case by simp
next
  case (Cons k ks)
  obtain r st1 where call: "impl k reason st = (r, st1)" by (cases "impl k reason st")
  obtain b2 calls2 logs2 st2 where
    rest: "handledInOrder impl reason ks st1 = (b2, calls2, logs2, st2)"
    by (cases "handledInOrder impl reason ks st1")
  note ih = Cons.IH [OF rest]
  show ?case
  proof (cases "r = Returned True")
    case True
    with call Cons.prems show ?thesis by auto
  next
    case False
    then have calls: "calls = (k, r) # calls2" and b: "b = b2"
      and logs: "logs = thrownLog [r] @ logs2"
      using call rest Cons.prems by (cases r; auto split: bool.splits)+
    have tl: "thrownLog (r # rs) = thrownLog [r] @ thrownLog rs" for rs
      by (cases r) simp_all
    from ih have ih1: "map fst calls2 = take (length calls2) ks"
      and ih2: "logs2 = thrownLog (map snd calls2)"
      and ih3: "\<forall>c\<in>set (butlast calls2). snd c \<noteq> Returned True"
      and ih4: "b2 \<longleftrightarrow> calls2 \<noteq> [] \<and> snd (last calls2) = Returned True"
      and ih5: "\<not> b2 \<longrightarrow> map fst calls2 = ks"
      by blast+
    have c1: "map fst calls = take (length calls) (k # ks)"
      using calls ih1 by simp
    have c2: "logs = thrownLog (map snd calls)"
      using calls logs ih2 tl [of "map snd calls2"] by simp
    have c3: "\<forall>c\<in>set (butlast calls). snd c \<noteq> Returned True"
      using calls ih3 False by (cases "calls2 = []") simp_all
    have c4: "b \<longleftrightarrow> calls \<noteq> [] \<and> snd (last calls) = Returned True"
      using calls b ih4 False by (cases "calls2 = []") simp_all
    have c5: "\<not> b \<longrightarrow> map fst calls = k # ks"
      using calls b ih5 by simp
    from c1 c2 c3 c4 c5 show ?thesis by blast
  qed
qed




section \<open>The top-level policy\<close>





section \<open>The fallback chain\<close>

text \<open>The unit of work answers once for each target; pairing a list with a shorter one.\<close>

lemma length_answers: "length (answers doWork chain s) = length chain"
  by (induction chain arbitrary: s) (auto split: prod.splits)

lemma zip_butlast_longer:
  "length xs = Suc (length ys) \<Longrightarrow> zip xs ys = zip (butlast xs) ys"
proof (induction xs arbitrary: ys)
  case Nil
  then show ?case by simp
next
  case (Cons x xs)
  then show ?case by (cases ys) auto
qed

lemma map_zip_snd:
  "length xs = length ys \<Longrightarrow> map (\<lambda>p. f (snd p)) (zip xs ys) = map f ys"
  by (induction xs ys rule: list_induct2) simp_all

lemma map_zip_fst:
  "length xs = length ys \<Longrightarrow> map (\<lambda>p. f (fst p)) (zip xs ys) = map f xs"
  by (induction xs ys rule: list_induct2) simp_all

text \<open>A rate-limit or transient failure is never classified as \<open>RetryOther\<close>.\<close>

lemma classifyRetry_retryable:
  "isRateLimit e \<or> isTransientNetwork e \<Longrightarrow> classifyRetry isRateLimit isTransientNetwork e \<noteq> RetryOther"
  by (auto simp: classifyRetry_def)

text \<open>
  The loop, started with any records and any count of calls: when every target but the
  last fails with a retryable error and the last succeeds, the loop succeeds, adds one
  record for each failure and one call for each target.
\<close>

lemma fallbackLoop_success:
  "answers doWork chain s = map Inl es @ [Inr r] \<Longrightarrow>
   \<forall>e\<in>set es. isRateLimit e \<or> isTransientNetwork e \<Longrightarrow>
   \<exists>s'. fallbackLoop isRateLimit isTransientNetwork messageText doWork chain attempts calls s =
     (Succeeded r
        (attempts @ map (\<lambda>(t, e). AttemptRecord t (classifyRetry isRateLimit isTransientNetwork e)
                                     (messageText e)) (zip chain es)),
      calls + length chain, s')"
proof (induction chain arbitrary: es attempts calls s)
  case Nil
  then show ?case by simp
next
  case (Cons t rest)
  obtain x s1 where w: "doWork t s = (x, s1)" by (cases "doWork t s")
  with Cons.prems(1) have ans: "x # answers doWork rest s1 = map Inl es @ [Inr r]" by simp
  show ?case
  proof (cases es)
    case Nil
    with ans have x: "x = Inr r" and "answers doWork rest s1 = []" by simp_all
    then have "rest = []" using length_answers [of doWork rest s1] by simp
    with w x Nil show ?thesis by simp
  next
    case (Cons e es')
    with ans have x: "x = Inl e" and rest: "answers doWork rest s1 = map Inl es' @ [Inr r]"
      by simp_all
    from rest have ne: "rest \<noteq> []" using length_answers [of doWork rest s1] by auto
    from Cons Cons.prems(2) have retry: "classifyRetry isRateLimit isTransientNetwork e \<noteq> RetryOther"
      and later: "\<forall>e\<in>set es'. isRateLimit e \<or> isTransientNetwork e"
      by (simp_all add: classifyRetry_retryable)
    let ?rec = "AttemptRecord t (classifyRetry isRateLimit isTransientNetwork e) (messageText e)"
    from Cons.IH [OF rest later, of "attempts @ [?rec]" "Suc calls"]
    obtain s' where ih: "fallbackLoop isRateLimit isTransientNetwork messageText doWork rest
        (attempts @ [?rec]) (Suc calls) s1 =
       (Succeeded r ((attempts @ [?rec]) @
           map (\<lambda>(t, e). AttemptRecord t (classifyRetry isRateLimit isTransientNetwork e)
                            (messageText e)) (zip rest es')),
        Suc calls + length rest, s')" by blast
    have "fallbackLoop isRateLimit isTransientNetwork messageText doWork (t # rest) attempts calls s
          = fallbackLoop isRateLimit isTransientNetwork messageText doWork rest
              (attempts @ [?rec]) (Suc calls) s1"
      using w x ne retry by (simp add: Let_def split: RetryReason.splits)
    with ih Cons show ?thesis by simp
  qed
qed

text \<open>
  Claim C8. For every chain of length K whose attempts 1 to K-1 fail with errors
  classified as rate-limit or transient-network and whose attempt K succeeds, the
  orchestrator returns the result of the success with exactly K-1 attempt records, one
  for each failed predecessor in chain order (its target, its reason, its message), and
  the unit of work is called exactly K times.
\<close>

theorem fallback_success_after_failures:
  assumes "answers doWork chain s = map Inl es @ [Inr r]"
    and "\<forall>e\<in>set es. isRateLimit e \<or> isTransientNetwork e"
  shows "\<exists>attempts s'.
           runWithModelFallback isRateLimit isTransientNetwork messageText doWork chain s
             = (Succeeded r attempts, length chain, s')
           \<and> length attempts = length chain - 1
           \<and> map att_target attempts = butlast chain
           \<and> map att_reason attempts = map (classifyRetry isRateLimit isTransientNetwork) es
           \<and> map att_message attempts = map messageText es
           \<and> (\<forall>a\<in>set attempts. att_reason a \<noteq> RetryOther)"
proof -
  let ?attempts = "map (\<lambda>(t, e). AttemptRecord t (classifyRetry isRateLimit isTransientNetwork e)
                                   (messageText e)) (zip chain es)"
  from fallbackLoop_success [OF assms, of messageText "[]" 0]
  obtain s' where run: "runWithModelFallback isRateLimit isTransientNetwork messageText doWork chain s
             = (Succeeded r ?attempts, length chain, s')"
    by (auto simp: runWithModelFallback_def)
  have len: "length chain = Suc (length es)"
    using length_answers [of doWork chain s] assms(1) by simp
  then have bl: "length (butlast chain) = length es" by simp
  have zip: "zip chain es = zip (butlast chain) es"
    using len by (rule zip_butlast_longer)
  have tg: "map att_target ?attempts = butlast chain"
    unfolding zip using map_zip_fst [OF bl, of "\<lambda>t. t"]
    by (simp add: comp_def case_prod_beta)
  have rs: "map att_reason ?attempts = map (classifyRetry isRateLimit isTransientNetwork) es"
    unfolding zip using map_zip_snd [OF bl]
    by (simp add: comp_def case_prod_beta)
  have ms: "map att_message ?attempts = map messageText es"
    unfolding zip using map_zip_snd [OF bl]
    by (simp add: comp_def case_prod_beta)
  have no: "\<forall>a\<in>set ?attempts. att_reason a \<noteq> RetryOther"
    using assms(2) by (auto dest!: set_zip_rightD simp: classifyRetry_retryable)
  have ln: "length ?attempts = length chain - 1" using len by simp
  from run ln tg rs ms no show ?thesis by blast
qed

text \<open>
  The theorem of C8 at the chain of three targets of the test, with a unit of work that
  fails twice with a 429 error and then succeeds.
\<close>

theorem fallback_success_after_failures_witness:
  "isRateLimitError 2 statusHeap (VObj 1) = Some True
   \<and> answers failTwice testChain 0 = [Inl (VObj 1), Inl (VObj 1), Inr ''ok'']
   \<and> runWithModelFallback (\<lambda>e. isRateLimitError 2 statusHeap e = Some True)
         (\<lambda>e. isTransientNetworkError 2 statusHeap e = Some True) (messageOf statusHeap)
         failTwice testChain 0
       = (Succeeded ''ok''
            [AttemptRecord ''anthropic/claude-opus-4-5'' RetryRateLimit ''Too Many Requests'',
             AttemptRecord ''openrouter/anthropic/claude-sonnet-4'' RetryRateLimit
               ''Too Many Requests''],
          3, 3)"
proof -
  have rl: "isRateLimitError 2 statusHeap (VObj 1) = Some True"
    by (simp add: statusHeap_def heap_defs classifier_defs numeral_2_eq_2)
  have ans: "answers failTwice testChain 0 = map Inl [VObj 1, VObj 1] @ [Inr ''ok'']"
    by (simp add: failTwice_def testChain_def)
  have retry: "\<forall>e\<in>set [VObj 1, VObj 1]. isRateLimitError 2 statusHeap e = Some True
                 \<or> isTransientNetworkError 2 statusHeap e = Some True"
    using rl by simp
  have msg: "messageOf statusHeap (VObj 1) = ''Too Many Requests''"
    by (simp add: statusHeap_def heap_defs classifier_defs)
  from fallback_success_after_failures [OF ans retry, of "messageOf statusHeap"]
  obtain attempts s' where
    run: "runWithModelFallback (\<lambda>e. isRateLimitError 2 statusHeap e = Some True)
            (\<lambda>e. isTransientNetworkError 2 statusHeap e = Some True) (messageOf statusHeap)
            failTwice testChain 0 = (Succeeded ''ok'' attempts, length testChain, s')"
    by blast
  have "runWithModelFallback (\<lambda>e. isRateLimitError 2 statusHeap e = Some True)
            (\<lambda>e. isTransientNetworkError 2 statusHeap e = Some True) (messageOf statusHeap)
            failTwice testChain 0
       = (Succeeded ''ok''
            [AttemptRecord ''anthropic/claude-opus-4-5'' RetryRateLimit ''Too Many Requests'',
             AttemptRecord ''openrouter/anthropic/claude-sonnet-4'' RetryRateLimit
               ''Too Many Requests''],
          3, 3)"
    using run rl msg
    by (simp add: runWithModelFallback_def failTwice_def testChain_def classifyRetry_def)
  with rl ans show ?thesis by simp
qed

text \<open>
  Claim C9. For every chain, when the first attempt fails with an error classified
  neither as rate-limit nor as transient-network, the orchestrator calls the unit of
  work exactly once and raises that same error again, not wrapped, however many
  fallback targets remain.
\<close>

theorem fallback_reraises_non_retryable:
  assumes "doWork t s = (Inl e, s')"
    and "\<not> isRateLimit e" and "\<not> isTransientNetwork e"
  shows "runWithModelFallback isRateLimit isTransientNetwork messageText doWork (t # rest) s
           = (Reraised e, 1, s')"
  using assms by (simp add: runWithModelFallback_def classifyRetry_def)

text \<open>
  The theorem of C9 at the chain of three targets of the test, with a unit of work that
  fails with \<^verbatim>\<open>new Error("regular error")\<close>.
\<close>

theorem fallback_reraises_non_retryable_witness:
  "isRateLimitError 2 aggregateHeap (VObj 2) = Some False
   \<and> isTransientNetworkError 2 aggregateHeap (VObj 2) = Some False
   \<and> runWithModelFallback (\<lambda>e. isRateLimitError 2 aggregateHeap e = Some True)
         (\<lambda>e. isTransientNetworkError 2 aggregateHeap e = Some True) (messageOf aggregateHeap)
         failPlain testChain 0
       = (Reraised (VObj 2), 1, 1)"
proof -
  have rl: "isRateLimitError 2 aggregateHeap (VObj 2) = Some False"
    and tn: "isTransientNetworkError 2 aggregateHeap (VObj 2) = Some False"
    by (simp_all add: aggregateHeap_def heap_defs classifier_defs numeral_2_eq_2)
  have w: "failPlain ''anthropic/claude-opus-4-5'' 0 = (Inl (VObj 2), 1)"
    by (simp add: failPlain_def)
  from fallback_reraises_non_retryable
         [where doWork = failPlain and t = "''anthropic/claude-opus-4-5''" and s = 0
            and e = "VObj 2" and s' = 1
            and isRateLimit = "\<lambda>e. isRateLimitError 2 aggregateHeap e = Some True"
            and isTransientNetwork = "\<lambda>e. isTransientNetworkError 2 aggregateHeap e = Some True"
            and messageText = "messageOf aggregateHeap"
            and rest = "[''openrouter/anthropic/claude-sonnet-4'',
                         ''lucablaq-studio-ollama/qwen3:32b'']"] w
  show ?thesis using rl tn by (simp add: testChain_def)
qed

section \<open>The classifiers return on a store without cycles\<close>

text \<open>On a value that is not an object neither classifier calls itself.\<close>

lemma isRateLimitError_primitive:
  "\<not> isObject v \<Longrightarrow> isRateLimitError (Suc n) h v \<noteq> None"
  by (cases v) (auto simp: getErrorCause_def Let_def)

lemma isTransientNetworkError_primitive:
  "\<not> isObject v \<Longrightarrow> isTransientNetworkError (Suc n) h v \<noteq> None"
  by (cases v) (auto simp: getErrorCause_def Let_def instanceofTypeError_def
        instanceofAggregateError_def)

text \<open>
  When the store has no cycle, a depth of two more than the rank of the value is enough
  for both classifiers; so the listener returns whenever the loop over the handlers
  returns and leaves such a store.
\<close>

lemma isRateLimitError_ranked:
  assumes "ranked h rank"
  shows "isRateLimitError (Suc (Suc (rankOf rank v))) h v \<noteq> None"
proof (induction "rankOf rank v" arbitrary: v rule: less_induct)
  case less
  show ?case
  proof (cases v)
    case (VObj a)
    have rec: "isRateLimitError (Suc (rank a)) h (cause (h a)) \<noteq> None"
    proof (cases "cause (h a)")
      case c: (VObj b)
      with assms have lt: "rank b < rank a" by (auto simp: ranked_def)
      with less [of "cause (h a)"] c VObj
      obtain r where "isRateLimitError (Suc (Suc (rank b))) h (cause (h a)) = Some r"
        by (auto simp: rankOf_def)
      from isRateLimitError_mono [OF this, of "Suc (rank a)"] lt show ?thesis by simp
    qed (simp_all add: isRateLimitError_primitive del: isRateLimitError.simps)
    show ?thesis
      using rec VObj
      by (subst isRateLimitError.simps(2))
         (auto simp: Let_def getErrorCause_def rankOf_def simp del: isRateLimitError.simps)
  qed (simp_all add: isRateLimitError_primitive del: isRateLimitError.simps)
qed

lemma isTransientNetworkError_ranked:
  assumes "ranked h rank"
  shows "isTransientNetworkError (Suc (Suc (rankOf rank v))) h v \<noteq> None"
proof (induction "rankOf rank v" arbitrary: v rule: less_induct)
  case less
  show ?case
  proof (cases v)
    case (VObj a)
    have below: "isTransientNetworkError (Suc (rank a)) h w \<noteq> None"
      if "\<And>b. w = VObj b \<Longrightarrow> rank b < rank a" for w
    proof (cases w)
      case w: (VObj b)
      with that have lt: "rank b < rank a" by simp
      with less [of w] w VObj
      obtain r where "isTransientNetworkError (Suc (Suc (rank b))) h w = Some r"
        by (auto simp: rankOf_def)
      from isTransientNetworkError_mono [OF this, of "Suc (rank a)"] lt show ?thesis by simp
    qed (simp_all add: isTransientNetworkError_primitive del: isTransientNetworkError.simps)
    have rec: "isTransientNetworkError (Suc (rank a)) h (cause (h a)) \<noteq> None"
    proof (rule below)
      fix b
      assume "cause (h a) = VObj b"
      with assms show "rank b < rank a" unfolding ranked_def by blast
    qed
    have mem: "some (isTransientNetworkError (Suc (rank a)) h) ms \<noteq> None"
      if "errors (h a) = Some ms" for ms
    proof -
      have "isTransientNetworkError (Suc (rank a)) h m \<noteq> None" if m: "m \<in> set ms" for m
      proof (rule below)
        fix b
        assume "m = VObj b"
        with assms m \<open>errors (h a) = Some ms\<close> show "rank b < rank a"
          unfolding ranked_def by blast
      qed
      then have "\<forall>m\<in>set ms. isTransientNetworkError (Suc (rank a)) h m \<noteq> None"
        by blast
      then show ?thesis by (simp only: some_all_return) simp
    qed
    show ?thesis
      using rec mem VObj
      by (subst isTransientNetworkError.simps(2))
         (auto simp: Let_def getErrorCause_def rankOf_def
               simp del: isTransientNetworkError.simps split: option.splits)
  qed (simp_all add: isTransientNetworkError_primitive del: isTransientNetworkError.simps)
qed

lemma unhandledRejectionListener_ranked:
  assumes "isUnhandledRejectionHandled n impl reason st = Some (handled, calls, logs, st')"
    and "ranked (store st') rank"
    and "Suc (Suc (rankOf rank reason)) \<le> n"
  shows "unhandledRejectionListener n impl reason st \<noteq> None"
proof -
  from isRateLimitError_ranked [OF assms(2), of reason]
  obtain r where "isRateLimitError (Suc (Suc (rankOf rank reason))) (store st') reason = Some r"
    by auto
  from isRateLimitError_mono [OF this assms(3)]
  have rl: "isRateLimitError n (store st') reason = Some r" .
  from isTransientNetworkError_ranked [OF assms(2), of reason]
  obtain t where
    "isTransientNetworkError (Suc (Suc (rankOf rank reason))) (store st') reason = Some t"
    by auto
  from isTransientNetworkError_mono [OF this assms(3)]
  have tn: "isTransientNetworkError n (store st') reason = Some t" .
  show ?thesis
    using assms(1) rl tn unfolding unhandledRejectionListener_def
    by (auto split: bool.splits)
qed

text \<open>The stores of the examples that have no cycle.\<close>

lemma ranked_statusHeap: "ranked statusHeap (\<lambda>a. 0)"
  by (simp add: ranked_def statusHeap_def heap_defs)

lemma ranked_aggregateHeap: "ranked aggregateHeap (\<lambda>a. if a = 0 \<or> a = 3 \<or> a = 4 then 1 else 0)"
  by (simp add: ranked_def aggregateHeap_def heap_defs)

end
